theory Spec2Isabelle
  imports Main "HOL-Library.AList"
begin

section \<open>The plugin engine of \<open>next-gen-engine.ts\<close>\<close>

text \<open>
  The class \<open>Engine\<close> owns three tables (\<open>plugins\<close>, \<open>events\<close>, \<open>listeners\<close>) and a
  handle to the plugin manager. Each method of the class becomes a function from the engine
  state to a pair: the error thrown, if any, and the state the method leaves behind (a
  method that throws half-way keeps the mutations it made before the throw).

  JavaScript objects used as dictionaries are association lists in insertion order:
  \<open>map_of\<close> reads a key, \<open>AList.update\<close> assigns it (in place when the key exists, at the
  end otherwise) and \<open>AList.delete\<close> is the \<open>delete\<close> operator. A table that was never
  assigned is \<open>None\<close>: reading a property of it is the \<open>TypeError\<close> of JavaScript.
  Every value stored in the tables is an object, an array or a function, hence truthy: the
  tests \<open>!table[key]\<close> of the source are tests for the absence of the property.

  The plugin table is read with names that come from outside the engine. It is an ordinary
  object (\<open>Record<string, Plugin>\<close>), so \<open>this.plugins[name]\<close> finds the plugin stored under
  the key and otherwise the property of that name inherited from \<open>Object.prototype\<close>, which
  is truthy and is no plugin. The two event tables are read with listener names and with
  keys built by \<open>listenEvent\<close>; they are read among their own keys.

  The \<open>async\<close> methods are modelled as run to completion: every \<open>await\<close> resumes at once and
  no other operation interleaves. Code outside the engine (the hooks of a plugin, the
  callbacks plugins subscribe, the three optional hooks of the engine, \<open>addRequest\<close>) is
  recorded in a trace when the engine calls it, and is assumed to return without calling
  back into the engine.
\<close>

subsection \<open>Values, errors and observable effects\<close>

datatype jsval =
    JUndefined
  | JString string
  | JNumber int
  | JObject "(string \<times> jsval) list"

type_synonym payload = "jsval list"

datatype error =
    TypeError \<comment> \<open>a property read, written or deleted on \<open>undefined\<close>\<close>
  | ReferenceError \<comment> \<open>an identifier that resolves to nothing\<close>
  | AlreadyRegistered \<comment> \<open>line 265\<close>
  | NotRegistered \<comment> \<open>lines 105, 171 and 210\<close>
  | PermissionDenied \<comment> \<open>line 117\<close>
  | NotActivatable \<comment> \<open>line 127\<close>
  | MethodNotExposed "string list" \<comment> \<open>lines 133 to 135, with the methods the message lists\<close>
  | InternalConsistency \<comment> \<open>line 40\<close>
  | ProfileUnknown \<comment> \<open>\<open>getProfile\<close> of a name the manager does not know\<close>
  | HookFailure \<comment> \<open>a plugin's \<open>activate\<close> or \<open>deactivate\<close> hook rejected\<close>

record profile =
  pname :: string \<comment> \<open>the field \<open>name\<close> of a profile\<close>
  methods :: "string list"

type_synonym app = "(string \<times> profile) list"

datatype capability =
    Unset \<comment> \<open>never activated: whatever the plugin class itself defines\<close>
  | Bound \<comment> \<open>the closures of \<open>activatePlugin\<close>, bound to the plugin's name\<close>
  | Disabled \<comment> \<open>the throwing stand-ins of \<open>deactivatePlugin\<close>\<close>

record plugin =
  plugin_name :: string \<comment> \<open>the field \<open>name\<close> of a plugin\<close>
  plugin_profile :: profile
  activate_rejects :: bool \<comment> \<open>whether the plugin's own \<open>activate()\<close> rejects\<close>
  deactivate_rejects :: bool \<comment> \<open>whether the plugin's own \<open>deactivate()\<close> rejects\<close>
  caps :: capability \<comment> \<open>the fields \<open>on\<close>, \<open>once\<close>, \<open>off\<close>, \<open>emit\<close> and \<open>call\<close>\<close>
  app_snapshot :: "app option" \<comment> \<open>the field \<open>app\<close>\<close>
  createApp_installed :: bool \<comment> \<open>the field \<open>createApp\<close>\<close>

datatype callback =
    UserCb nat \<comment> \<open>a function supplied by a plugin, known by an identifier\<close>
  | OnceCb string string string nat \<comment> \<open>the wrapper of \<open>listenOnce\<close>, lines 89 to 92\<close>
  | RootActivated \<comment> \<open>\<open>({name}) => this.activatePlugin(name)\<close>, line 24\<close>
  | RootDeactivated \<comment> \<open>\<open>({name}) => this.deactivatePlugin(name)\<close>, line 25\<close>

datatype effect =
    HookRegistration string \<comment> \<open>\<open>this.onRegistration(plugin)\<close>\<close>
  | HookActivated string \<comment> \<open>\<open>this.onActivated(plugin)\<close>\<close>
  | HookDeactivated string \<comment> \<open>\<open>this.onDeactivated(plugin)\<close>\<close>
  | Activate string \<comment> \<open>\<open>plugin.activate()\<close>\<close>
  | Deactivate string \<comment> \<open>\<open>plugin.deactivate()\<close>\<close>
  | AddRequest string string string payload
      \<comment> \<open>\<open>this.plugins[target]['addRequest']({from}, method, payload)\<close>: target, from, method, payload\<close>
  | Invoked nat payload \<comment> \<open>the user callback of that identifier called with the payload\<close>
  | StartActivate jsval \<comment> \<open>\<open>this.activatePlugin(name)\<close> started by the root listener, promise dropped\<close>
  | StartDeactivate jsval \<comment> \<open>\<open>this.deactivatePlugin(name)\<close> started by the root listener, promise dropped\<close>

subsection \<open>The plugin manager (\<open>../plugin/manager\<close>)\<close>

text \<open>
  Modelled from the spec: the class \<open>PluginManager\<close> is imported by the engine and is not
  part of the sources at hand. Section 6 of the specification gives its interface: it owns
  the profile of every plugin and its active flag, and answers the permission queries
  \<open>canCall\<close> and \<open>canActivate\<close>. The two policies are parameters of the model.
  \<open>toggleActive\<close> flips the flag of a plugin; the events the manager emits when it does so
  are the manager's own code and stay outside the model.
\<close>

record manager =
  profiles :: "(string \<times> profile) list"
  active :: "string list"
  canCall :: "profile \<Rightarrow> profile \<Rightarrow> string \<Rightarrow> bool" \<comment> \<open>\<open>canCall(from, to, method)\<close>\<close>
  canActivate :: "profile \<Rightarrow> profile \<Rightarrow> bool" \<comment> \<open>\<open>canActivate(from, to)\<close>\<close>

definition addProfile :: "profile \<Rightarrow> manager \<Rightarrow> manager" where
  "addProfile p m = m\<lparr>profiles := AList.update (pname p) p (profiles m)\<rparr>"

definition getProfile :: "manager \<Rightarrow> string \<Rightarrow> error + profile" where
  "getProfile m n = (case map_of (profiles m) n of None \<Rightarrow> Inl ProfileUnknown | Some p \<Rightarrow> Inr p)"

definition isActive :: "manager \<Rightarrow> string \<Rightarrow> bool" where
  "isActive m n = (n \<in> set (active m))"

definition toggleActive :: "string \<Rightarrow> manager \<Rightarrow> manager" where
  "toggleActive n m =
     (if n \<in> set (active m) then m\<lparr>active := removeAll n (active m)\<rparr>
      else m\<lparr>active := active m @ [n]\<rparr>)"

subsection \<open>The engine state\<close>

record engine =
  manager :: manager
  plugins :: "(string \<times> plugin) list option"
  events :: "(string \<times> (string \<times> callback) list) list option"
  listeners :: "(string \<times> string list) list option"
  onRegistration :: bool \<comment> \<open>whether the optional hook is defined\<close>
  onActivated :: bool
  onDeactivated :: bool
  trace :: "effect list" \<comment> \<open>the calls made to code outside the engine, oldest first\<close>
  prototype :: "string list" \<comment> \<open>the names of the properties of \<open>Object.prototype\<close>\<close>

text \<open>
  Two things the source refers to are not defined in it. The function \<open>listenEvent\<close> of
  \<open>utils\<close> builds the key of an (emitter, event) pair; it is a parameter. The identifier
  \<open>name\<close> in \<open>addListener\<close> (lines 62 and 63) is no parameter or local of that method: it
  resolves to the global of that name (\<open>window.name\<close> in a browser, a string), or to nothing,
  in which case evaluating it throws a \<open>ReferenceError\<close>.
\<close>

record env =
  listenEvent :: "string \<Rightarrow> string \<Rightarrow> string"
  global_name :: "string option"

definition emit_effect :: "effect \<Rightarrow> engine \<Rightarrow> engine" where
  "emit_effect e s = s\<lparr>trace := trace s @ [e]\<rparr>"

subsection \<open>Reading the plugin table\<close>

text \<open>
  The properties every ordinary object inherits. Each is a function, except \<open>__proto__\<close>,
  which reads as \<open>Object.prototype\<close> itself and, when assigned an object, replaces the
  prototype of the table instead of adding a key. The list is part of the state because
  \<open>activatePlugin\<close> can extend it: called with \<open>__proto__\<close>, it stores its closures on
  \<open>Object.prototype\<close>.
\<close>

definition object_prototype_names :: "string list" where
  "object_prototype_names =
     [''constructor'', ''__defineGetter__'', ''__defineSetter__'', ''hasOwnProperty'',
      ''__lookupGetter__'', ''__lookupSetter__'', ''isPrototypeOf'', ''propertyIsEnumerable'',
      ''toString'', ''valueOf'', ''__proto__'', ''toLocaleString'']"

datatype slot =
    Own plugin \<comment> \<open>the plugin stored under the key\<close>
  | Inherited \<comment> \<open>no such key: the inherited property of that name\<close>
  | Absent \<comment> \<open>\<open>undefined\<close>\<close>

definition read_plugin :: "engine \<Rightarrow> (string \<times> plugin) list \<Rightarrow> string \<Rightarrow> slot" where
  "read_plugin s ps n =
     (case map_of ps n of
        Some pl \<Rightarrow> Own pl
      | None \<Rightarrow> if n \<in> set (prototype s) then Inherited else Absent)"

subsection \<open>\<open>register\<close>, lines 263 to 270\<close>

definition register :: "plugin \<Rightarrow> engine \<Rightarrow> error option \<times> engine" where
  "register plugin s =
     (case plugins s of
        None \<Rightarrow> (Some TypeError, s)
      | Some ps \<Rightarrow>
          (case read_plugin s ps (plugin_name plugin) of
             Own _ \<Rightarrow> (Some AlreadyRegistered, s)
           | Inherited \<Rightarrow> (Some AlreadyRegistered, s)
           | Absent \<Rightarrow>
               (let s1 = s\<lparr>plugins := Some (AList.update (plugin_name plugin) plugin ps)\<rparr>;
                    s2 = s1\<lparr>manager := addProfile (plugin_profile plugin) (manager s1)\<rparr>
                in (None, if onRegistration s2
                          then emit_effect (HookRegistration (plugin_name plugin)) s2
                          else s2))))"

subsection \<open>The event registry\<close>

text \<open>\<open>addListener\<close>, lines 53 to 65. The name pushed on the listener list is the global
  \<open>name\<close>, not the parameter \<open>listener\<close>.\<close>

definition addListener ::
  "env \<Rightarrow> string \<Rightarrow> string \<Rightarrow> string \<Rightarrow> callback \<Rightarrow> engine \<Rightarrow> error option \<times> engine" where
  "addListener env listener emitter event cb s =
     (let eventName = listenEvent env emitter event in
      case events s of
        None \<Rightarrow> (Some TypeError, s)
      | Some evs \<Rightarrow>
          (case map_of evs listener of
             None \<Rightarrow> (Some TypeError, s)
           | Some tbl \<Rightarrow>
               (let s1 = (case map_of tbl eventName of
                            None \<Rightarrow> s\<lparr>events :=
                                      Some (AList.update listener (AList.update eventName cb tbl) evs)\<rparr>
                          | Some _ \<Rightarrow> s)
                in case listeners s1 of
                     None \<Rightarrow> (Some TypeError, s1)
                   | Some ls \<Rightarrow>
                       (let ls1 = (case map_of ls eventName of
                                     None \<Rightarrow> AList.update eventName [] ls
                                   | Some _ \<Rightarrow> ls);
                            xs = (case map_of ls1 eventName of None \<Rightarrow> [] | Some ys \<Rightarrow> ys);
                            s2 = s1\<lparr>listeners := Some ls1\<rparr>
                        in case global_name env of
                             None \<Rightarrow> (Some ReferenceError, s2)
                           | Some nm \<Rightarrow>
                               (if nm \<in> set xs then (None, s2)
                                else (None, s2\<lparr>listeners :=
                                               Some (AList.update eventName (xs @ [nm]) ls1)\<rparr>))))))"

text \<open>\<open>removeListener\<close>, lines 73 to 79.\<close>

definition removeListener ::
  "env \<Rightarrow> string \<Rightarrow> string \<Rightarrow> string \<Rightarrow> engine \<Rightarrow> error option \<times> engine" where
  "removeListener env listener emitter event s =
     (let eventName = listenEvent env emitter event in
      case listeners s of
        None \<Rightarrow> (Some TypeError, s)
      | Some ls \<Rightarrow>
          (case map_of ls eventName of
             None \<Rightarrow> (Some TypeError, s)
           | Some xs \<Rightarrow>
               (let s1 = s\<lparr>listeners :=
                            Some (AList.update eventName (filter (\<lambda>n. n \<noteq> listener) xs) ls)\<rparr>
                in case events s1 of
                     None \<Rightarrow> (Some TypeError, s1)
                   | Some evs \<Rightarrow>
                       (case map_of evs listener of
                          None \<Rightarrow> (Some TypeError, s1)
                        | Some tbl \<Rightarrow>
                            (None, s1\<lparr>events :=
                                       Some (AList.update listener (AList.delete eventName tbl) evs)\<rparr>)))))"

text \<open>\<open>listenOnce\<close>, lines 88 to 93: the callback stored is the wrapper.\<close>

definition listenOnce ::
  "env \<Rightarrow> string \<Rightarrow> string \<Rightarrow> string \<Rightarrow> nat \<Rightarrow> engine \<Rightarrow> error option \<times> engine" where
  "listenOnce env listener emitter event cb s =
     addListener env listener emitter event (OnceCb listener emitter event cb) s"

text \<open>
  Calling a stored callback. A user callback is opaque: the model records the call and
  assumes that it returns without calling back into the engine. The wrapper of
  \<open>listenOnce\<close> calls the user callback, then \<open>removeListener\<close>. The two root callbacks
  destructure \<open>{name}\<close> from their first argument (a \<open>TypeError\<close> when there is none) and
  start an \<open>async\<close> method whose promise nobody awaits: up to its first \<open>await\<close> that method
  only reads, so the call leaves the tables as they are.
\<close>

fun destructure_name :: "payload \<Rightarrow> error + jsval" where
  "destructure_name [] = Inl TypeError"
| "destructure_name (JUndefined # _) = Inl TypeError"
| "destructure_name (JObject fs # _) =
     Inr (case map_of fs ''name'' of None \<Rightarrow> JUndefined | Some v \<Rightarrow> v)"
| "destructure_name (_ # _) = Inr JUndefined"

fun invoke :: "env \<Rightarrow> callback \<Rightarrow> payload \<Rightarrow> engine \<Rightarrow> error option \<times> engine" where
  "invoke env (UserCb i) p s = (None, emit_effect (Invoked i p) s)"
| "invoke env (OnceCb listener emitter event i) p s =
     removeListener env listener emitter event (emit_effect (Invoked i p) s)"
| "invoke env RootActivated p s =
     (case destructure_name p of
        Inl e \<Rightarrow> (Some e, s)
      | Inr n \<Rightarrow> (None, emit_effect (StartActivate n) s))"
| "invoke env RootDeactivated p s =
     (case destructure_name p of
        Inl e \<Rightarrow> (Some e, s)
      | Inr n \<Rightarrow> (None, emit_effect (StartDeactivate n) s))"

text \<open>
  \<open>broadcast\<close>, lines 34 to 44. The \<open>forEach\<close> walks the array read at line 37; no callback
  of the model changes that array in place (\<open>removeListener\<close> stores a new one), so the
  walk is over the list as it was.
\<close>

fun broadcast_each ::
  "env \<Rightarrow> string \<Rightarrow> payload \<Rightarrow> string list \<Rightarrow> engine \<Rightarrow> error option \<times> engine" where
  "broadcast_each env eventName p [] s = (None, s)"
| "broadcast_each env eventName p (listener # rest) s =
     (case events s of
        None \<Rightarrow> (Some TypeError, s)
      | Some evs \<Rightarrow>
          (case map_of evs listener of
             None \<Rightarrow> (Some TypeError, s)
           | Some tbl \<Rightarrow>
               (case map_of tbl eventName of
                  None \<Rightarrow> (Some InternalConsistency, s)
                | Some cb \<Rightarrow>
                    (case invoke env cb p s of
                       (Some e, s1) \<Rightarrow> (Some e, s1)
                     | (None, s1) \<Rightarrow> broadcast_each env eventName p rest s1))))"

definition broadcast ::
  "env \<Rightarrow> string \<Rightarrow> string \<Rightarrow> payload \<Rightarrow> engine \<Rightarrow> error option \<times> engine" where
  "broadcast env emitter event p s =
     (let eventName = listenEvent env emitter event in
      case listeners s of
        None \<Rightarrow> (Some TypeError, s)
      | Some ls \<Rightarrow>
          (case map_of ls eventName of
             None \<Rightarrow> (None, s)
           | Some xs \<Rightarrow> broadcast_each env eventName p xs s))"

subsection \<open>\<open>callMethod\<close>, lines 103 to 140\<close>

text \<open>
  Line 109 binds \<open>to\<close> to the first element of the pair, the profile fetched for \<open>caller\<close>,
  and \<open>from\<close> to the second, the profile fetched for \<open>target\<close>. The request handed to the
  target's \<open>addRequest\<close> is recorded in the trace; what the target answers is outside the
  engine. When \<open>this.plugins[target]\<close> is an inherited property, it has no \<open>addRequest\<close> and
  the call at line 139 throws a \<open>TypeError\<close>.
\<close>

definition callMethod ::
  "string \<Rightarrow> string \<Rightarrow> string \<Rightarrow> payload \<Rightarrow> engine \<Rightarrow> error option \<times> engine" where
  "callMethod caller target method p s =
     (case plugins s of
        None \<Rightarrow> (Some TypeError, s)
      | Some ps \<Rightarrow>
          (case read_plugin s ps target of
             Absent \<Rightarrow> (Some NotRegistered, s)
           | found \<Rightarrow>
               (case getProfile (manager s) caller of
                  Inl e \<Rightarrow> (Some e, s)
                | Inr to \<Rightarrow>
                    (case getProfile (manager s) target of
                       Inl e \<Rightarrow> (Some e, s)
                     | Inr from \<Rightarrow>
                         (if \<not> canCall (manager s) from to method then (Some PermissionDenied, s)
                          else
                            (case (if isActive (manager s) target then Inr s
                                   else if canActivate (manager s) from to
                                   then Inr (s\<lparr>manager := toggleActive target (manager s)\<rparr>)
                                   else Inl NotActivatable) of
                               Inl e \<Rightarrow> (Some e, s)
                             | Inr s1 \<Rightarrow>
                                 (if method \<notin> set (methods to)
                                  then (Some (MethodNotExposed (methods to)), s1)
                                  else (case found of
                                          Own _ \<Rightarrow>
                                            (None, emit_effect (AddRequest target caller method p) s1)
                                        | _ \<Rightarrow> (Some TypeError, s1)))))))))"

subsection \<open>\<open>createApp\<close>, lines 147 to 162\<close>

text \<open>
  \<open>Object.keys\<close> lists the keys that are array indices first, in ascending numeric order,
  then the other keys in the order of their insertion. An array index is a decimal numeral
  without leading zero below \<open>2^32 - 1\<close>.
\<close>

definition is_digit :: "char \<Rightarrow> bool" where
  "is_digit c = (48 \<le> (of_char c :: nat) \<and> (of_char c :: nat) \<le> 57)"

definition digits_value :: "string \<Rightarrow> nat" where
  "digits_value k = foldl (\<lambda>a c. 10 * a + (of_char c - 48)) 0 k"

definition is_array_index :: "string \<Rightarrow> bool" where
  "is_array_index k =
     (k \<noteq> [] \<and> list_all is_digit k \<and> (length k = 1 \<or> hd k \<noteq> CHR ''0'')
      \<and> digits_value k < 4294967295)"

definition own_keys :: "(string \<times> 'a) list \<Rightarrow> string list" where
  "own_keys tbl =
     sort_key digits_value (filter is_array_index (map fst tbl))
     @ filter (\<lambda>k. \<not> is_array_index k) (map fst tbl)"

text \<open>The snapshot maps the name of every profile fetched to that profile; the methods bound
  for the caller are the \<open>methods\<close> of the profile. Assigning the key \<open>__proto__\<close> adds no key
  to the snapshot.\<close>

fun fetch_profiles :: "manager \<Rightarrow> string list \<Rightarrow> error + profile list" where
  "fetch_profiles m [] = Inr []"
| "fetch_profiles m (k # ks) =
     (case getProfile m k of
        Inl e \<Rightarrow> Inl e
      | Inr pr \<Rightarrow> (case fetch_profiles m ks of Inl e \<Rightarrow> Inl e | Inr prs \<Rightarrow> Inr (pr # prs)))"

definition createApp :: "string \<Rightarrow> engine \<Rightarrow> error + app" where
  "createApp caller s =
     (case plugins s of
        None \<Rightarrow> Inl TypeError
      | Some ps \<Rightarrow>
          (case fetch_profiles (manager s) (own_keys ps) of
             Inl e \<Rightarrow> Inl e
           | Inr prs \<Rightarrow>
               Inr (foldl (\<lambda>a target. if pname target = ''__proto__'' then a
                                       else AList.update (pname target) target a) [] prs)))"

subsection \<open>\<open>activatePlugin\<close>, lines 169 to 201\<close>

definition set_plugin :: "string \<Rightarrow> plugin \<Rightarrow> engine \<Rightarrow> engine" where
  "set_plugin n pl s = s\<lparr>plugins := map_option (AList.update n pl) (plugins s)\<rparr>"

text \<open>
  When \<open>this.plugins[name]\<close> is an inherited property and the manager does not report the
  name active, the method goes on with that property as \<open>plugin\<close>: line 177 adds a callback
  table under the name, lines 178 to 196 store the closures and the snapshot on the
  inherited object, which is no part of the tables unless it is \<open>Object.prototype\<close> itself,
  and line 199 throws a \<open>TypeError\<close>, as the object has no \<open>activate\<close>.
\<close>

definition activate_inherited :: "string \<Rightarrow> engine \<Rightarrow> error option \<times> engine" where
  "activate_inherited n s =
     (case events s of
        None \<Rightarrow> (Some TypeError, s)
      | Some evs \<Rightarrow>
          (let s1 = (if n = ''__proto__'' then s
                     else s\<lparr>events := Some (AList.update n [] evs)\<rparr>);
               s2 = (if n = ''__proto__''
                     then s1\<lparr>prototype :=
                             prototype s1 @ [''on'', ''once'', ''off'', ''emit'', ''call'']\<rparr>
                     else s1)
           in case createApp n s2 of
                Inl e \<Rightarrow> (Some e, s2)
              | Inr a \<Rightarrow>
                  (Some TypeError,
                   if n = ''__proto__''
                   then s2\<lparr>prototype := prototype s2 @ [''app'', ''createApp'']\<rparr>
                   else s2)))"

definition activatePlugin :: "string \<Rightarrow> engine \<Rightarrow> error option \<times> engine" where
  "activatePlugin n s =
     (case plugins s of
        None \<Rightarrow> (Some TypeError, s)
      | Some ps \<Rightarrow>
          (case read_plugin s ps n of
             Absent \<Rightarrow> (Some NotRegistered, s)
           | Inherited \<Rightarrow> (if isActive (manager s) n then (None, s) else activate_inherited n s)
           | Own plugin \<Rightarrow>
               (if isActive (manager s) n then (None, s)
                else
                  (case events s of
                     None \<Rightarrow> (Some TypeError, s)
                   | Some evs \<Rightarrow>
                       (let s1 = s\<lparr>events := Some (AList.update n [] evs)\<rparr>;
                            plugin1 = plugin\<lparr>caps := Bound\<rparr>;
                            s2 = set_plugin n plugin1 s1
                        in case createApp n s2 of
                             Inl e \<Rightarrow> (Some e, s2)
                           | Inr a \<Rightarrow>
                               (let plugin2 = plugin1\<lparr>app_snapshot := Some a,
                                                     createApp_installed := True\<rparr>;
                                    s3 = emit_effect (Activate n) (set_plugin n plugin2 s2)
                                in if activate_rejects plugin2 then (Some HookFailure, s3)
                                   else (None, if onActivated s3
                                               then emit_effect (HookActivated n) s3
                                               else s3)))))))"

subsection \<open>\<open>deactivatePlugin\<close>, lines 208 to 257\<close>

text \<open>
  Lines 250 to 252 call \<open>splice(i, 1)\<close> on the array that \<open>forEach\<close> is walking. \<open>forEach\<close>
  reads the length once, then visits the indices below it in turn, skipping an index that
  the array no longer has. \<open>splice_walk r i n xs\<close> is the walk with \<open>r\<close> indices left to
  visit, the next one being \<open>i\<close>.
\<close>

fun splice_walk :: "nat \<Rightarrow> nat \<Rightarrow> string \<Rightarrow> string list \<Rightarrow> string list" where
  "splice_walk 0 i n xs = xs"
| "splice_walk (Suc r) i n xs =
     (if i < length xs \<and> xs ! i = n
      then splice_walk r (Suc i) n (take i xs @ drop (Suc i) xs)
      else splice_walk r (Suc i) n xs)"

definition splice_out :: "string \<Rightarrow> string list \<Rightarrow> string list" where
  "splice_out n xs = splice_walk (length xs) 0 n xs"

text \<open>
  When \<open>this.plugins[name]\<close> is an inherited property, the method returns at line 213 if the
  manager does not report the name active, and otherwise throws a \<open>TypeError\<close> at line 217,
  as the property has no \<open>deactivate\<close>.
\<close>

definition deactivatePlugin :: "string \<Rightarrow> engine \<Rightarrow> error option \<times> engine" where
  "deactivatePlugin n s =
     (case plugins s of
        None \<Rightarrow> (Some TypeError, s)
      | Some ps \<Rightarrow>
          (case read_plugin s ps n of
             Absent \<Rightarrow> (Some NotRegistered, s)
           | Inherited \<Rightarrow> (if \<not> isActive (manager s) n then (None, s) else (Some TypeError, s))
           | Own plugin \<Rightarrow>
               (if \<not> isActive (manager s) n then (None, s)
                else
                  (let s1 = emit_effect (Deactivate n) s
                   in if deactivate_rejects plugin then (Some HookFailure, s1)
                      else
                        (let plugin1 = plugin\<lparr>caps := Disabled, app_snapshot := None,
                                              createApp_installed := False\<rparr>;
                             s2 = set_plugin n plugin1 s1
                         in case events s2 of
                              None \<Rightarrow> (Some TypeError, s2)
                            | Some evs \<Rightarrow>
                                (let s3 = s2\<lparr>events := Some (AList.delete n evs)\<rparr>
                                 in case listeners s3 of
                                      None \<Rightarrow> (Some TypeError, s3)
                                    | Some ls \<Rightarrow>
                                        (let s4 = s3\<lparr>listeners :=
                                                     Some (map (\<lambda>(k, xs). (k, splice_out n xs)) ls)\<rparr>
                                         in (None, if onDeactivated s4
                                                   then emit_effect (HookDeactivated n) s4
                                                   else s4))))))))"

subsection \<open>The constructor, lines 15 to 26\<close>

text \<open>
  \<open>activateManager\<close> is \<open>async\<close> and the constructor does not await it: an error in it rejects
  a promise that nobody holds, and the constructor returns all the same.
\<close>

definition activateManager :: "env \<Rightarrow> engine \<Rightarrow> error option \<times> engine" where
  "activateManager env s =
     (case activatePlugin ''manager'' s of
        (Some e, s1) \<Rightarrow> (Some e, s1)
      | (None, s1) \<Rightarrow>
          (case addListener env ''__root__'' ''manager'' ''activated'' RootActivated s1 of
             (Some e, s2) \<Rightarrow> (Some e, s2)
           | (None, s2) \<Rightarrow>
               addListener env ''__root__'' ''manager'' ''deactivated'' RootDeactivated s2))"

text \<open>
  Modelled from the spec: \<open>new PluginManager(managerProfile)\<close>. The class is not part of the
  sources at hand; per section 2 of the specification the manager is itself a plugin, and
  as an authority it starts with no profile and no active plugin. The engine the
  constructor starts from has the manager and nothing else: the fields \<open>plugins\<close>, \<open>events\<close>
  and \<open>listeners\<close> are declared at lines 7 to 9 and assigned nowhere. The three optional
  hooks are whatever a subclass defines.
\<close>

definition new_PluginManager ::
  "(profile \<Rightarrow> profile \<Rightarrow> string \<Rightarrow> bool) \<Rightarrow> (profile \<Rightarrow> profile \<Rightarrow> bool) \<Rightarrow> manager" where
  "new_PluginManager cc ca = \<lparr>profiles = [], active = [], canCall = cc, canActivate = ca\<rparr>"

definition manager_plugin :: "profile \<Rightarrow> plugin" where
  "manager_plugin managerProfile =
     \<lparr>plugin_name = pname managerProfile, plugin_profile = managerProfile,
      activate_rejects = False, deactivate_rejects = False, caps = Unset,
      app_snapshot = None, createApp_installed = False\<rparr>"

definition fresh_engine :: "manager \<Rightarrow> bool \<Rightarrow> bool \<Rightarrow> bool \<Rightarrow> engine" where
  "fresh_engine m hReg hAct hDeact =
     \<lparr>manager = m, plugins = None, events = None, listeners = None,
      onRegistration = hReg, onActivated = hAct, onDeactivated = hDeact, trace = [],
      prototype = object_prototype_names\<rparr>"

definition Engine_constructor ::
  "env \<Rightarrow> (profile \<Rightarrow> profile \<Rightarrow> string \<Rightarrow> bool) \<Rightarrow> (profile \<Rightarrow> profile \<Rightarrow> bool)
     \<Rightarrow> bool \<Rightarrow> bool \<Rightarrow> bool \<Rightarrow> profile \<Rightarrow> error option \<times> engine" where
  "Engine_constructor env cc ca hReg hAct hDeact managerProfile =
     (case register (manager_plugin managerProfile)
             (fresh_engine (new_PluginManager cc ca) hReg hAct hDeact) of
        (Some e, s1) \<Rightarrow> (Some e, s1)
      | (None, s1) \<Rightarrow> (None, snd (activateManager env s1)))"

subsection \<open>Predicates on the listener sets\<close>

text \<open>No listener set records a name twice; some listener set records the name \<open>n\<close>.\<close>

definition duplicate_free :: "engine \<Rightarrow> bool" where
  "duplicate_free s =
     (case listeners s of None \<Rightarrow> True | Some ls \<Rightarrow> list_all (\<lambda>(k, xs). distinct xs) ls)"

definition recorded :: "string \<Rightarrow> engine \<Rightarrow> bool" where
  "recorded n s =
     (case listeners s of None \<Rightarrow> False | Some ls \<Rightarrow> list_ex (\<lambda>(k, xs). n \<in> set xs) ls)"

subsection \<open>Concrete engines\<close>

text \<open>
  Small engines on which the methods are run below. \<open>key_of\<close> is a key function in the
  style of \<open>listenEvent\<close>; \<open>browser\<close> is a page whose \<open>window.name\<close> is the empty string (the
  default), \<open>bare\<close> a host without a global \<open>name\<close>.
\<close>

definition key_of :: "string \<Rightarrow> string \<Rightarrow> string" where
  "key_of emitter event = ''['' @ emitter @ ''] '' @ event"

definition browser :: env where
  "browser = \<lparr>listenEvent = key_of, global_name = Some []\<rparr>"

definition bare :: env where
  "bare = \<lparr>listenEvent = key_of, global_name = None\<rparr>"

definition handle :: "profile \<Rightarrow> plugin" where
  "handle pr =
     \<lparr>plugin_name = pname pr, plugin_profile = pr,
      activate_rejects = False, deactivate_rejects = False, caps = Unset,
      app_snapshot = None, createApp_installed = False\<rparr>"

definition profile_A :: profile where
  "profile_A = \<lparr>pname = ''A'', methods = [''ping'']\<rparr>"

definition profile_B :: profile where
  "profile_B = \<lparr>pname = ''B'', methods = []\<rparr>"

text \<open>An authority that knows \<open>A\<close> and \<open>B\<close>, with the given active plugins and policies.\<close>

definition authority ::
  "string list \<Rightarrow> (profile \<Rightarrow> profile \<Rightarrow> string \<Rightarrow> bool) \<Rightarrow> (profile \<Rightarrow> profile \<Rightarrow> bool) \<Rightarrow> manager" where
  "authority act cc ca =
     \<lparr>profiles = [(''A'', profile_A), (''B'', profile_B)], active = act,
      canCall = cc, canActivate = ca\<rparr>"

text \<open>An engine with \<open>A\<close> and \<open>B\<close> registered, no hook defined, and the given tables.\<close>

definition engine_AB ::
  "manager \<Rightarrow> (string \<times> (string \<times> callback) list) list \<Rightarrow> (string \<times> string list) list \<Rightarrow> engine" where
  "engine_AB m evs ls =
     \<lparr>manager = m, plugins = Some [(''A'', handle profile_A), (''B'', handle profile_B)],
      events = Some evs, listeners = Some ls,
      onRegistration = False, onActivated = False, onDeactivated = False, trace = [],
      prototype = object_prototype_names\<rparr>"

text \<open>Policies: everything is allowed; only \<open>A\<close> may be called; only \<open>A\<close> may be activated.\<close>

definition allow_call :: "profile \<Rightarrow> profile \<Rightarrow> string \<Rightarrow> bool" where
  "allow_call from to method = True"

definition allow_activate :: "profile \<Rightarrow> profile \<Rightarrow> bool" where
  "allow_activate from to = True"

definition only_A_callable :: "profile \<Rightarrow> profile \<Rightarrow> string \<Rightarrow> bool" where
  "only_A_callable from to method = (pname to = ''A'')"

definition only_A_activatable :: "profile \<Rightarrow> profile \<Rightarrow> bool" where
  "only_A_activatable from to = (pname to = ''A'')"

section \<open>Properties\<close>

subsection \<open>Reading the plugin table\<close>

lemma read_plugin_own: "map_of ps n = Some pl \<Longrightarrow> read_plugin s ps n = Own pl"
  by (simp add: read_plugin_def)

lemma read_plugin_inherited:
  "map_of ps n = None \<Longrightarrow> n \<in> set (prototype s) \<Longrightarrow> read_plugin s ps n = Inherited"
  by (simp add: read_plugin_def)

lemma read_plugin_absent:
  "map_of ps n = None \<Longrightarrow> n \<notin> set (prototype s) \<Longrightarrow> read_plugin s ps n = Absent"
  by (simp add: read_plugin_def)

subsection \<open>The guards of \<open>activatePlugin\<close> and \<open>deactivatePlugin\<close>\<close>

text \<open>
  A name that is neither a key of the registry nor an inherited property makes both methods
  fail with \<open>NotRegistered\<close>. For a registered plugin, \<open>activatePlugin\<close> returns at line 174
  when the manager reports it active and \<open>deactivatePlugin\<close> returns at line 213 when the
  manager reports it inactive; in all these cases the state is as it was.
\<close>

lemma activate_deactivate_unknown:
  assumes "plugins s = Some ps" and "map_of ps n = None" and "n \<notin> set (prototype s)"
  shows "activatePlugin n s = (Some NotRegistered, s)"
    and "deactivatePlugin n s = (Some NotRegistered, s)"
  using assms by (simp_all add: activatePlugin_def deactivatePlugin_def read_plugin_absent)

lemma activatePlugin_active:
  assumes "plugins s = Some ps" and "map_of ps n = Some pl" and "isActive (manager s) n"
  shows "activatePlugin n s = (None, s)"
  using assms by (simp add: activatePlugin_def read_plugin_own)

lemma deactivatePlugin_inactive:
  assumes "plugins s = Some ps" and "map_of ps n = Some pl" and "\<not> isActive (manager s) n"
  shows "deactivatePlugin n s = (None, s)"
  using assms by (simp add: deactivatePlugin_def read_plugin_own)

text \<open>
  A name that is no key of the registry and is an inherited property passes the test of
  lines 170 and 209: \<open>deactivatePlugin\<close> returns without error when the manager reports the
  name inactive, and \<open>activatePlugin\<close> goes on past line 174.
\<close>

lemma deactivatePlugin_inherited:
  assumes "plugins s = Some ps" and "map_of ps n = None" and "n \<in> set (prototype s)"
  shows "deactivatePlugin n s = (if isActive (manager s) n then (Some TypeError, s) else (None, s))"
  using assms by (simp add: deactivatePlugin_def read_plugin_inherited)

lemma activatePlugin_inherited:
  assumes "plugins s = Some ps" and "map_of ps n = None" and "n \<in> set (prototype s)"
  shows "activatePlugin n s = (if isActive (manager s) n then (None, s) else activate_inherited n s)"
  using assms by (simp add: activatePlugin_def read_plugin_inherited)

lemma activate_inherited_fails: "fst (activate_inherited n s) \<noteq> None"
  by (simp add: activate_inherited_def Let_def split: option.splits sum.splits)

subsection \<open>What \<open>callMethod\<close> does with the two profiles\<close>

text \<open>
  For a registered target and two profiles known to the manager, the outcome of
  \<open>callMethod\<close> in terms of the caller's profile \<open>cp\<close> and the target's profile \<open>tp\<close>: both
  permission queries get \<open>tp\<close> as \<open>from\<close> and \<open>cp\<close> as \<open>to\<close>, and the exposure test reads the
  methods of \<open>cp\<close>.
\<close>

lemma callMethod_registered:
  assumes "plugins s = Some ps" and "map_of ps target = Some pl"
    and "getProfile (manager s) caller = Inr cp" and "getProfile (manager s) target = Inr tp"
  shows "callMethod caller target method p s =
     (if \<not> canCall (manager s) tp cp method then (Some PermissionDenied, s)
      else if \<not> isActive (manager s) target \<and> \<not> canActivate (manager s) tp cp
      then (Some NotActivatable, s)
      else if isActive (manager s) target
      then (if method \<in> set (methods cp)
            then (None, emit_effect (AddRequest target caller method p) s)
            else (Some (MethodNotExposed (methods cp)), s))
      else (if method \<in> set (methods cp)
            then (None, emit_effect (AddRequest target caller method p)
                          (s\<lparr>manager := toggleActive target (manager s)\<rparr>))
            else (Some (MethodNotExposed (methods cp)),
                  s\<lparr>manager := toggleActive target (manager s)\<rparr>)))"
  using assms by (simp add: callMethod_def read_plugin_own Let_def)

lemma callMethod_unregistered:
  assumes "plugins s = Some ps" and "map_of ps target = None" and "target \<notin> set (prototype s)"
  shows "callMethod caller target method p s = (Some NotRegistered, s)"
  using assms by (simp add: callMethod_def read_plugin_absent)

subsection \<open>The walk of \<open>deactivatePlugin\<close> over a listener set\<close>

text \<open>Once the name is in no position from the next index on, the walk changes nothing.\<close>

lemma splice_walk_absent:
  "n \<notin> set (drop i xs) \<Longrightarrow> splice_walk r i n xs = xs"
proof (induction r arbitrary: i)
  case 0
  show ?case by simp
next
  case (Suc r)
  have here: "\<not> (i < length xs \<and> xs ! i = n)"
  proof
    assume a: "i < length xs \<and> xs ! i = n"
    then have "drop i xs = n # drop (Suc i) xs"
      by (metis Cons_nth_drop_Suc)
    with Suc.prems show False by simp
  qed
  have "set (drop (Suc i) xs) \<subseteq> set (drop i xs)"
    by (metis drop_Suc set_drop_subset tl_drop drop_drop Suc_eq_plus1_left)
  with Suc.prems have "n \<notin> set (drop (Suc i) xs)" by blast
  then have "splice_walk r (Suc i) n xs = xs" by (rule Suc.IH)
  with here show ?case by auto
qed

text \<open>On a set without duplicates the walk removes the name.\<close>

lemma splice_walk_distinct:
  "distinct xs \<Longrightarrow> n \<notin> set (take i xs) \<Longrightarrow> length xs \<le> i + r
     \<Longrightarrow> n \<notin> set (splice_walk r i n xs)"
proof (induction r arbitrary: i)
  case 0
  then show ?case by simp
next
  case (Suc r)
  show ?case
  proof (cases "i < length xs \<and> xs ! i = n")
    case True
    let ?ys = "take i xs @ drop (Suc i) xs"
    from True have split: "xs = take i xs @ n # drop (Suc i) xs"
      by (metis id_take_nth_drop)
    with Suc.prems(1) have "distinct (take i xs @ n # drop (Suc i) xs)" by simp
    then have "n \<notin> set (drop (Suc i) xs)" by simp
    with Suc.prems(2) have notin: "n \<notin> set ?ys" by simp
    have "set (drop (Suc i) ?ys) \<subseteq> set ?ys" by (rule set_drop_subset)
    with notin have "n \<notin> set (drop (Suc i) ?ys)" by blast
    then have "splice_walk r (Suc i) n ?ys = ?ys" by (rule splice_walk_absent)
    with True notin show ?thesis by simp
  next
    case False
    have "n \<notin> set (take (Suc i) xs)"
    proof (cases "i < length xs")
      case True
      with False have "xs ! i \<noteq> n" by simp
      with True Suc.prems(2) show ?thesis by (simp add: take_Suc_conv_app_nth)
    next
      case False
      with Suc.prems(2) show ?thesis by simp
    qed
    moreover from Suc.prems(3) have "length xs \<le> Suc i + r" by simp
    ultimately have "n \<notin> set (splice_walk r (Suc i) n xs)"
      using Suc.prems(1) by (intro Suc.IH)
    with False show ?thesis by auto
  qed
qed

lemma splice_out_distinct: "distinct xs \<Longrightarrow> n \<notin> set (splice_out n xs)"
  unfolding splice_out_def by (rule splice_walk_distinct) simp_all

text \<open>The walk keeps a set free of duplicates.\<close>

lemma distinct_without_index: "distinct xs \<Longrightarrow> distinct (take i xs @ drop (Suc i) xs)"
proof -
  assume d: "distinct xs"
  have "set (drop (Suc i) xs) \<subseteq> set (drop i xs)"
    by (metis drop_Suc set_drop_subset tl_drop drop_drop Suc_eq_plus1_left)
  moreover from d have "distinct (take i xs @ drop i xs)" by simp
  then have "set (take i xs) \<inter> set (drop i xs) = {}" by (simp only: distinct_append)
  ultimately have "set (take i xs) \<inter> set (drop (Suc i) xs) = {}" by blast
  with d show ?thesis by simp
qed

lemma distinct_splice_walk: "distinct xs \<Longrightarrow> distinct (splice_walk r i n xs)"
proof (induction r arbitrary: i xs)
  case 0
  then show ?case by simp
next
  case (Suc r)
  from Suc.prems have "distinct (take i xs @ drop (Suc i) xs)"
    by (rule distinct_without_index)
  then have "distinct (splice_walk r (Suc i) n (take i xs @ drop (Suc i) xs))"
    by (rule Suc.IH)
  moreover from Suc.prems have "distinct (splice_walk r (Suc i) n xs)"
    by (rule Suc.IH)
  ultimately show ?case by simp
qed

lemma distinct_splice_out: "distinct xs \<Longrightarrow> distinct (splice_out n xs)"
  by (simp add: splice_out_def distinct_splice_walk)

text \<open>
  A \<open>deactivatePlugin\<close> that runs past line 213 to its end has walked every listener set
  and deleted the callback table of the plugin.
\<close>

lemma deactivatePlugin_completed:
  assumes "deactivatePlugin n s = (None, s')" and "isActive (manager s) n"
  shows "\<exists>ls evs. listeners s = Some ls \<and> events s = Some evs
           \<and> listeners s' = Some (map (\<lambda>(k, xs). (k, splice_out n xs)) ls)
           \<and> events s' = Some (AList.delete n evs)"
  using assms
  by (auto simp add: deactivatePlugin_def Let_def set_plugin_def emit_effect_def
      split: option.splits if_splits slot.splits)

subsection \<open>The engine keeps its listener sets free of duplicates\<close>

text \<open>
  Line 63 pushes a name on a listener set only after line 62 found that the set does not
  include it; lines 76 and 251 only remove names; no other line writes a listener set.
  Hence every method keeps the listener sets free of duplicates, and the engine of the
  constructor has none.
\<close>

lemma list_all_update:
  "list_all P ls \<Longrightarrow> P (k, v) \<Longrightarrow> list_all P (AList.update k v ls)"
  by (induction ls) auto

lemma list_all_map_of:
  "list_all P ls \<Longrightarrow> map_of ls k = Some v \<Longrightarrow> P (k, v)"
  by (auto simp add: list_all_iff dest: map_of_SomeD)

lemma duplicate_free_same_listeners:
  "listeners s' = listeners s \<Longrightarrow> duplicate_free s' = duplicate_free s"
  by (simp add: duplicate_free_def)

lemma duplicate_free_fresh_engine: "duplicate_free (fresh_engine m hReg hAct hDeact)"
  by (simp add: duplicate_free_def fresh_engine_def)

lemma addListener_duplicate_free:
  assumes "duplicate_free s"
  shows "duplicate_free (snd (addListener env listener emitter event cb s))"
proof (cases "listeners s")
  case None
  then show ?thesis
    by (auto simp add: addListener_def duplicate_free_def Let_def split: option.splits)
next
  case (Some ls)
  with assms have all: "list_all (\<lambda>(k, xs). distinct xs) ls"
    by (simp add: duplicate_free_def)
  let ?k = "listenEvent env emitter event"
  let ?ls1 = "case map_of ls ?k of None \<Rightarrow> AList.update ?k [] ls | Some _ \<Rightarrow> ls"
  let ?xs = "case map_of ?ls1 ?k of None \<Rightarrow> [] | Some ys \<Rightarrow> ys"
  from all have all1: "list_all (\<lambda>(k, xs). distinct xs) ?ls1"
    by (simp add: list_all_update split: option.splits)
  have "distinct ?xs"
  proof (cases "map_of ?ls1 ?k")
    case None
    then show ?thesis by simp
  next
    case (Some ys)
    with all1 have "(\<lambda>(k, xs). distinct xs) (?k, ys)" by (rule list_all_map_of)
    with Some show ?thesis by simp
  qed
  then have push: "\<And>g. g \<notin> set ?xs \<Longrightarrow> list_all (\<lambda>(k, xs). distinct xs) (AList.update ?k (?xs @ [g]) ?ls1)"
    using all1 by (simp add: list_all_update)
  from Some all all1 push show ?thesis
    by (auto simp add: addListener_def duplicate_free_def Let_def split: option.splits)
qed

lemma removeListener_duplicate_free:
  assumes "duplicate_free s"
  shows "duplicate_free (snd (removeListener env listener emitter event s))"
proof (cases "listeners s")
  case None
  then show ?thesis
    by (simp add: removeListener_def duplicate_free_def Let_def)
next
  case (Some ls)
  with assms have all: "list_all (\<lambda>(k, xs). distinct xs) ls"
    by (simp add: duplicate_free_def)
  have "\<And>xs. map_of ls (listenEvent env emitter event) = Some xs \<Longrightarrow>
          list_all (\<lambda>(k, xs). distinct xs)
            (AList.update (listenEvent env emitter event) (filter (\<lambda>n. n \<noteq> listener) xs) ls)"
  proof -
    fix xs
    assume "map_of ls (listenEvent env emitter event) = Some xs"
    with all have "(\<lambda>(k, xs). distinct xs) (listenEvent env emitter event, xs)"
      by (rule list_all_map_of)
    with all show "list_all (\<lambda>(k, xs). distinct xs)
            (AList.update (listenEvent env emitter event) (filter (\<lambda>n. n \<noteq> listener) xs) ls)"
      by (simp add: list_all_update)
  qed
  with Some all show ?thesis
    by (auto simp add: removeListener_def duplicate_free_def Let_def split: option.splits)
qed

lemma listenOnce_duplicate_free:
  "duplicate_free s \<Longrightarrow> duplicate_free (snd (listenOnce env listener emitter event cb s))"
  by (simp add: listenOnce_def addListener_duplicate_free)

lemma invoke_duplicate_free:
  "duplicate_free s \<Longrightarrow> duplicate_free (snd (invoke env cb p s))"
proof (cases cb)
  case (UserCb i)
  assume "duplicate_free s"
  with UserCb show ?thesis by (simp add: duplicate_free_def emit_effect_def)
next
  case (OnceCb l e ev i)
  assume "duplicate_free s"
  then have "duplicate_free (emit_effect (Invoked i p) s)"
    by (simp add: duplicate_free_def emit_effect_def)
  with OnceCb show ?thesis by (simp add: removeListener_duplicate_free)
next
  case RootActivated
  assume "duplicate_free s"
  with RootActivated show ?thesis
    by (simp add: duplicate_free_def emit_effect_def split: sum.splits)
next
  case RootDeactivated
  assume "duplicate_free s"
  with RootDeactivated show ?thesis
    by (simp add: duplicate_free_def emit_effect_def split: sum.splits)
qed

lemma broadcast_each_duplicate_free:
  "duplicate_free s \<Longrightarrow> duplicate_free (snd (broadcast_each env k p xs s))"
proof (induction xs arbitrary: s)
  case Nil
  then show ?case by simp
next
  case (Cons l rest)
  from Cons.prems have inv: "duplicate_free (snd (invoke env cb p s))" for cb
    by (rule invoke_duplicate_free)
  show ?case
  proof (cases "events s")
    case None
    with Cons.prems show ?thesis by simp
  next
    case evs: (Some evs)
    show ?thesis
    proof (cases "map_of evs l")
      case None
      with evs Cons.prems show ?thesis by simp
    next
      case tbl: (Some tbl)
      show ?thesis
      proof (cases "map_of tbl k")
        case None
        with evs tbl Cons.prems show ?thesis by simp
      next
        case (Some cb)
        obtain r s1 where res: "invoke env cb p s = (r, s1)" by (cases "invoke env cb p s")
        with inv [of cb] have s1: "duplicate_free s1" by simp
        then have "duplicate_free (snd (broadcast_each env k p rest s1))" by (rule Cons.IH)
        with evs tbl Some res s1 show ?thesis by (cases r) simp_all
      qed
    qed
  qed
qed

lemma broadcast_duplicate_free:
  "duplicate_free s \<Longrightarrow> duplicate_free (snd (broadcast env emitter event p s))"
  by (simp add: broadcast_def Let_def broadcast_each_duplicate_free split: option.splits)

lemma deactivatePlugin_duplicate_free:
  assumes "duplicate_free s"
  shows "duplicate_free (snd (deactivatePlugin n s))"
proof -
  have "list_all (\<lambda>(k, xs). distinct xs) (map (\<lambda>(k, xs). (k, splice_out n xs)) ls)"
    if "list_all (\<lambda>(k, xs). distinct xs) ls" for ls
    using that by (induction ls) (auto simp add: distinct_splice_out)
  with assms show ?thesis
    by (auto simp add: deactivatePlugin_def duplicate_free_def Let_def set_plugin_def
        emit_effect_def split: option.splits slot.splits)
qed

lemma register_duplicate_free:
  "duplicate_free s \<Longrightarrow> duplicate_free (snd (register pl s))"
  by (auto simp add: register_def duplicate_free_def Let_def emit_effect_def
      split: option.splits slot.splits)

lemma callMethod_duplicate_free:
  "duplicate_free s \<Longrightarrow> duplicate_free (snd (callMethod caller target method p s))"
  by (auto simp add: callMethod_def duplicate_free_def Let_def emit_effect_def
      split: option.splits slot.splits sum.splits)

lemma activatePlugin_duplicate_free:
  "duplicate_free s \<Longrightarrow> duplicate_free (snd (activatePlugin n s))"
  by (auto simp add: activatePlugin_def activate_inherited_def duplicate_free_def Let_def
      set_plugin_def emit_effect_def split: option.splits slot.splits sum.splits)

subsection \<open>What \<open>broadcast\<close> does\<close>

lemma broadcast_no_listener_set:
  assumes "listeners s = Some ls" and "map_of ls (listenEvent env emitter event) = None"
  shows "broadcast env emitter event p s = (None, s)"
  using assms by (simp add: broadcast_def)

lemma broadcast_empty_listener_set:
  assumes "listeners s = Some ls" and "map_of ls (listenEvent env emitter event) = Some []"
  shows "broadcast env emitter event p s = (None, s)"
  using assms by (simp add: broadcast_def)

text \<open>
  When every listener of the set has a user callback stored under the key, the callbacks
  are called with the payload in the order of the set, once per record.
\<close>

lemma broadcast_each_user_callbacks:
  assumes "events s = Some evs"
    and "list_all2 (\<lambda>l i. \<exists>tbl. map_of evs l = Some tbl \<and> map_of tbl k = Some (UserCb i)) xs ids"
  shows "broadcast_each env k p xs s = (None, s\<lparr>trace := trace s @ map (\<lambda>i. Invoked i p) ids\<rparr>)"
  using assms(2,1)
proof (induction xs ids arbitrary: s rule: list_all2_induct)
  case Nil
  show ?case by simp
next
  case (Cons l xs i ids)
  from Cons.hyps(1) obtain tbl where tbl: "map_of evs l = Some tbl" "map_of tbl k = Some (UserCb i)"
    by blast
  have "events (emit_effect (Invoked i p) s) = Some evs"
    using Cons.prems by (simp add: emit_effect_def)
  then have "broadcast_each env k p xs (emit_effect (Invoked i p) s)
      = (None, (emit_effect (Invoked i p) s)
           \<lparr>trace := trace (emit_effect (Invoked i p) s) @ map (\<lambda>i. Invoked i p) ids\<rparr>)"
    by (rule Cons.IH)
  with tbl Cons.prems show ?case
    by (simp add: emit_effect_def)
qed

text \<open>
  A listener of the set whose callback table has no entry under the key stops the walk with
  the error of line 40; a listener that has no callback table stops it with a \<open>TypeError\<close>.
\<close>

lemma broadcast_each_missing_entry:
  assumes "events s = Some evs" and "map_of evs l = Some tbl" and "map_of tbl k = None"
  shows "broadcast_each env k p (l # rest) s = (Some InternalConsistency, s)"
  using assms by simp

lemma broadcast_each_missing_table:
  assumes "events s = Some evs" and "map_of evs l = None"
  shows "broadcast_each env k p (l # rest) s = (Some TypeError, s)"
  using assms by simp

subsection \<open>What \<open>addListener\<close> records\<close>

text \<open>
  When \<open>addListener\<close> returns, the listener set of the key holds the value of the global
  \<open>name\<close>, and holds the listener's own name only if it did before or if the two coincide.
\<close>

lemma addListener_listener_set:
  assumes "addListener env listener emitter event cb s = (None, s')"
    and "listeners s = Some ls" and "listeners s' = Some ls'"
    and "global_name env = Some g"
  shows "map_of ls' (listenEvent env emitter event)
         = Some (let xs = (case map_of ls (listenEvent env emitter event) of
                             None \<Rightarrow> [] | Some ys \<Rightarrow> ys)
                 in if g \<in> set xs then xs else xs @ [g])"
  using assms
  by (auto simp add: addListener_def Let_def update_conv' split: option.splits if_splits)

subsection \<open>What \<open>removeListener\<close> does when the set and the table exist\<close>

lemma removeListener_present:
  assumes "listeners s = Some ls" and "map_of ls (listenEvent env emitter event) = Some xs"
    and "events s = Some evs" and "map_of evs listener = Some tbl"
  shows "removeListener env listener emitter event s =
     (None, s\<lparr>listeners := Some (AList.update (listenEvent env emitter event)
                                   (filter (\<lambda>n. n \<noteq> listener) xs) ls),
              events := Some (AList.update listener
                                (AList.delete (listenEvent env emitter event) tbl) evs)\<rparr>)"
  using assms by (simp add: removeListener_def Let_def)

section \<open>The claims\<close>

text \<open>
  C8. Registering a plugin whose name is already in the registry fails with
  \<open>AlreadyRegistered\<close> and leaves the whole engine state as it was: the stored handle is
  not replaced, the profile is not forwarded to the manager and the \<open>onRegistration\<close> hook
  is not called.
\<close>

theorem register_duplicate_fails:
  assumes "plugins s = Some ps" and "map_of ps (plugin_name p) = Some q"
  shows "register p s = (Some AlreadyRegistered, s)"
  using assms by (simp add: register_def read_plugin_own)

theorem register_duplicate_fails_witness:
  "register (handle \<lparr>pname = ''A'', methods = [''pong'']\<rparr>)
     (engine_AB (authority [] allow_call allow_activate) [] [])
   = (Some AlreadyRegistered, engine_AB (authority [] allow_call allow_activate) [] [])"
proof -
  have h1: "plugins (engine_AB (authority [] allow_call allow_activate) [] [])
              = Some [(''A'', handle profile_A), (''B'', handle profile_B)]"
    by (simp add: engine_AB_def)
  have h2: "map_of [(''A'', handle profile_A), (''B'', handle profile_B)]
              (plugin_name (handle \<lparr>pname = ''A'', methods = [''pong'']\<rparr>))
            = Some (handle profile_A)"
    by (simp add: handle_def)
  show ?thesis by (rule register_duplicate_fails [OF h1 h2])
qed

text \<open>
  C9 at a concrete engine: \<open>A\<close> and \<open>B\<close> are registered, \<open>A\<close> is active, and \<open>toString\<close> is
  not a key of the registry. The test of lines 170 and 209 reads \<open>this.plugins['toString']\<close>,
  which is the function every object inherits, so neither method fails with
  \<open>NotRegistered\<close>: \<open>deactivatePlugin\<close> returns at line 213 without error, and \<open>activatePlugin\<close>
  adds a callback table under \<open>toString\<close> and then throws a \<open>TypeError\<close> at line 199.
\<close>

theorem inherited_name_passes_registration_test:
  "plugins (engine_AB (authority [''A''] allow_call allow_activate) [] [])
     = Some [(''A'', handle profile_A), (''B'', handle profile_B)]
   \<and> map_of [(''A'', handle profile_A), (''B'', handle profile_B)] ''toString'' = None
   \<and> deactivatePlugin ''toString'' (engine_AB (authority [''A''] allow_call allow_activate) [] [])
     = (None, engine_AB (authority [''A''] allow_call allow_activate) [] [])
   \<and> activatePlugin ''toString'' (engine_AB (authority [''A''] allow_call allow_activate) [] [])
     = (Some TypeError,
        engine_AB (authority [''A''] allow_call allow_activate) [(''toString'', [])] [])"
  by (simp add: Let_def activatePlugin_def deactivatePlugin_def activate_inherited_def
      read_plugin_def createApp_def own_keys_def is_array_index_def is_digit_def
      getProfile_def isActive_def object_prototype_names_def engine_AB_def authority_def
      profile_A_def profile_B_def handle_def)

text \<open>
  C3. The constructor of \<open>Engine\<close> fails for every manager profile. The engine it starts
  from has none of the three tables, \<open>register\<close> throws a \<open>TypeError\<close> on any engine without
  a plugin table, and \<open>register\<close> is the constructor's first call: the constructor throws
  that error and leaves the tables unassigned.
\<close>

theorem Engine_constructor_always_fails:
  "Engine_constructor env cc ca hReg hAct hDeact managerProfile
     = (Some TypeError, fresh_engine (new_PluginManager cc ca) hReg hAct hDeact)
   \<and> plugins (fresh_engine m hReg hAct hDeact) = None
   \<and> events (fresh_engine m hReg hAct hDeact) = None
   \<and> listeners (fresh_engine m hReg hAct hDeact) = None
   \<and> register p (s\<lparr>plugins := None\<rparr>) = (Some TypeError, s\<lparr>plugins := None\<rparr>)"
  by (simp add: Engine_constructor_def register_def fresh_engine_def)

text \<open>
  C1 at a concrete engine: \<open>A\<close> exposes \<open>ping\<close>, \<open>B\<close> exposes nothing, both are active and
  every call is permitted. \<open>A\<close> calling \<open>ping\<close> of \<open>B\<close> reaches \<open>addRequest\<close> of \<open>B\<close> although
  \<open>B\<close> does not expose \<open>ping\<close>; \<open>B\<close> calling \<open>ping\<close> of \<open>A\<close> fails with \<open>MethodNotExposed\<close>,
  listing the methods of \<open>B\<close>, although \<open>A\<close> exposes it. The test of line 132 reads the
  profile fetched for the caller.
\<close>

theorem callMethod_exposure_reads_caller_profile:
  "getProfile (manager (engine_AB (authority [''A'', ''B''] allow_call allow_activate) [] [])) ''B''
     = Inr profile_B
   \<and> ''ping'' \<notin> set (methods profile_B)
   \<and> callMethod ''A'' ''B'' ''ping'' [] (engine_AB (authority [''A'', ''B''] allow_call allow_activate) [] [])
     = (None, emit_effect (AddRequest ''B'' ''A'' ''ping'' [])
                (engine_AB (authority [''A'', ''B''] allow_call allow_activate) [] []))
   \<and> ''ping'' \<in> set (methods profile_A)
   \<and> callMethod ''B'' ''A'' ''ping'' [] (engine_AB (authority [''A'', ''B''] allow_call allow_activate) [] [])
     = (Some (MethodNotExposed (methods profile_B)),
        engine_AB (authority [''A'', ''B''] allow_call allow_activate) [] [])"
  by (simp add: Let_def callMethod_def read_plugin_def emit_effect_def getProfile_def
      isActive_def engine_AB_def authority_def allow_call_def allow_activate_def profile_A_def
      profile_B_def handle_def)

text \<open>
  C5 at a concrete engine: the policy lets \<open>A\<close> and nobody else be called, both plugins are
  active. \<open>canCall\<close> of the profile of \<open>A\<close> as \<open>from\<close> and the profile of \<open>B\<close> as \<open>to\<close> is false,
  yet \<open>A\<close> calling \<open>ping\<close> of \<open>B\<close> reaches \<open>addRequest\<close> of \<open>B\<close>; \<open>canCall\<close> from \<open>B\<close> to \<open>A\<close> is
  true, yet \<open>B\<close> calling \<open>A\<close> fails with \<open>PermissionDenied\<close>. Line 115 passes the target's
  profile as \<open>from\<close> and the caller's as \<open>to\<close>.
\<close>

theorem callMethod_canCall_receives_swapped_profiles:
  "\<not> canCall (manager (engine_AB (authority [''A'', ''B''] only_A_callable allow_activate) [] []))
       profile_A profile_B ''ping''
   \<and> callMethod ''A'' ''B'' ''ping'' [] (engine_AB (authority [''A'', ''B''] only_A_callable allow_activate) [] [])
     = (None, emit_effect (AddRequest ''B'' ''A'' ''ping'' [])
                (engine_AB (authority [''A'', ''B''] only_A_callable allow_activate) [] []))
   \<and> canCall (manager (engine_AB (authority [''A'', ''B''] only_A_callable allow_activate) [] []))
       profile_B profile_A ''ping''
   \<and> callMethod ''B'' ''A'' ''ping'' [] (engine_AB (authority [''A'', ''B''] only_A_callable allow_activate) [] [])
     = (Some PermissionDenied,
        engine_AB (authority [''A'', ''B''] only_A_callable allow_activate) [] [])"
  by (simp add: Let_def callMethod_def read_plugin_def emit_effect_def getProfile_def
      isActive_def engine_AB_def authority_def only_A_callable_def allow_activate_def
      profile_A_def profile_B_def handle_def)

text \<open>
  C4 at a concrete engine: \<open>B\<close> is inactive and the policy lets \<open>A\<close> and nobody else be
  activated, so \<open>canActivate\<close> of the profile of \<open>A\<close> as \<open>from\<close> and the profile of \<open>B\<close> as \<open>to\<close>
  is false. \<open>A\<close> calling \<open>ping\<close> of \<open>B\<close> does not fail with \<open>NotActivatable\<close>: the flag of \<open>B\<close>
  is toggled and the request reaches \<open>addRequest\<close> of \<open>B\<close>, whose handle in the registry is
  as it was (no capability installed, no \<open>activate\<close> hook in the trace).
\<close>

theorem callMethod_canActivate_receives_swapped_profiles:
  "\<not> isActive (manager (engine_AB (authority [''A''] allow_call only_A_activatable) [] [])) ''B''
   \<and> \<not> canActivate (manager (engine_AB (authority [''A''] allow_call only_A_activatable) [] []))
         profile_A profile_B
   \<and> callMethod ''A'' ''B'' ''ping'' [] (engine_AB (authority [''A''] allow_call only_A_activatable) [] [])
     = (None, emit_effect (AddRequest ''B'' ''A'' ''ping'' [])
                (engine_AB (authority [''A'', ''B''] allow_call only_A_activatable) [] []))"
  by (simp add: Let_def callMethod_def read_plugin_def emit_effect_def getProfile_def
      isActive_def toggleActive_def engine_AB_def authority_def allow_call_def
      only_A_activatable_def profile_A_def profile_B_def handle_def)

text \<open>
  C2 at a concrete engine: \<open>A\<close> has a callback table and nothing is recorded yet. In a
  browser \<open>addListener\<close> stores the callback of \<open>A\<close> and records the empty string, the value of
  \<open>window.name\<close>, in the listener set of (\<open>B\<close>, \<open>ev\<close>); the name \<open>A\<close> is not in the set. The
  broadcast that follows looks up the callback table of the empty string and throws a
  \<open>TypeError\<close> without calling the callback. Without a global \<open>name\<close>, \<open>addListener\<close> itself
  throws a \<open>ReferenceError\<close>.
\<close>

theorem addListener_records_global_name:
  "addListener browser ''A'' ''B'' ''ev'' (UserCb 0)
       (engine_AB (authority [''A'', ''B''] allow_call allow_activate) [(''A'', [])] [])
     = (None, engine_AB (authority [''A'', ''B''] allow_call allow_activate)
                [(''A'', [(''[B] ev'', UserCb 0)])] [(''[B] ev'', [[]])])
   \<and> broadcast browser ''B'' ''ev'' [JNumber 1, JNumber 2]
       (engine_AB (authority [''A'', ''B''] allow_call allow_activate)
          [(''A'', [(''[B] ev'', UserCb 0)])] [(''[B] ev'', [[]])])
     = (Some TypeError, engine_AB (authority [''A'', ''B''] allow_call allow_activate)
                          [(''A'', [(''[B] ev'', UserCb 0)])] [(''[B] ev'', [[]])])
   \<and> addListener bare ''A'' ''B'' ''ev'' (UserCb 0)
       (engine_AB (authority [''A'', ''B''] allow_call allow_activate) [(''A'', [])] [])
     = (Some ReferenceError, engine_AB (authority [''A'', ''B''] allow_call allow_activate)
                               [(''A'', [(''[B] ev'', UserCb 0)])] [(''[B] ev'', [])])"
  by (simp add: Let_def addListener_def broadcast_def browser_def bare_def key_of_def engine_AB_def)

text \<open>
  C6, as stated, fails at a concrete engine. \<open>A\<close> is active and recorded twice in the
  listener set of (\<open>B\<close>, \<open>ev\<close>): \<open>deactivatePlugin\<close> completes and one record of \<open>A\<close> is still
  in the set, because the \<open>splice\<close> of line 251 moves the second record to the index the
  walk has just left. And \<open>B\<close> is inactive and recorded in the listener set of (\<open>A\<close>, \<open>ev\<close>):
  \<open>deactivatePlugin\<close> returns at line 213 and \<open>B\<close> is still in the set.
\<close>

theorem deactivatePlugin_keeps_duplicate_record:
  "isActive (manager (engine_AB (authority [''A''] allow_call allow_activate)
        [(''A'', [(''[B] ev'', UserCb 0)])] [(''[B] ev'', [''A'', ''A''])])) ''A''
   \<and> deactivatePlugin ''A''
       (engine_AB (authority [''A''] allow_call allow_activate)
          [(''A'', [(''[B] ev'', UserCb 0)])] [(''[B] ev'', [''A'', ''A''])])
     = (None, (engine_AB (authority [''A''] allow_call allow_activate)
                 [] [(''[B] ev'', [''A''])])
              \<lparr>plugins := Some [(''A'', (handle profile_A)\<lparr>caps := Disabled\<rparr>),
                                (''B'', handle profile_B)],
               trace := [Deactivate ''A'']\<rparr>)
   \<and> recorded ''A''
         ((engine_AB (authority [''A''] allow_call allow_activate)
             [] [(''[B] ev'', [''A''])])
          \<lparr>plugins := Some [(''A'', (handle profile_A)\<lparr>caps := Disabled\<rparr>),
                            (''B'', handle profile_B)],
           trace := [Deactivate ''A'']\<rparr>)
   \<and> deactivatePlugin ''B''
       (engine_AB (authority [''A''] allow_call allow_activate) [] [(''[A] ev'', [''B''])])
     = (None, engine_AB (authority [''A''] allow_call allow_activate) [] [(''[A] ev'', [''B''])])
   \<and> recorded ''B''
         (engine_AB (authority [''A''] allow_call allow_activate) [] [(''[A] ev'', [''B''])])"
  by (simp add: Let_def deactivatePlugin_def read_plugin_def recorded_def isActive_def
      set_plugin_def emit_effect_def splice_out_def AList.delete_eq engine_AB_def authority_def
      handle_def)

text \<open>
  C6, amended. For every plugin that the manager reports active and every engine in which
  no listener set records a name twice (the engines the methods build, by the lemmas on
  \<open>duplicate_free\<close> above), a \<open>deactivatePlugin\<close> that completes leaves the plugin recorded in
  no listener set and without callback table: no set that a later \<open>broadcast\<close> walks holds
  the plugin, and no callback is stored for it.
\<close>

theorem deactivatePlugin_purges_duplicate_free_sets:
  assumes "deactivatePlugin n s = (None, s')" and "isActive (manager s) n"
    and "duplicate_free s"
  shows "\<not> recorded n s' \<and> (\<exists>ls. listeners s' = Some ls)
         \<and> (\<exists>evs. events s' = Some evs \<and> map_of evs n = None)"
proof -
  from assms(1,2) obtain ls evs where
    before: "listeners s = Some ls" "events s = Some evs" and
    after: "listeners s' = Some (map (\<lambda>(k, xs). (k, splice_out n xs)) ls)"
      "events s' = Some (AList.delete n evs)"
    using deactivatePlugin_completed by blast
  from assms(3) before(1) have all: "list_all (\<lambda>(k, xs). distinct xs) ls"
    by (simp add: duplicate_free_def)
  have "\<not> list_ex (\<lambda>(k, xs). n \<in> set xs) (map (\<lambda>(k, xs). (k, splice_out n xs)) ls)"
    using all by (induction ls) (auto simp add: splice_out_distinct)
  with after(1) have "\<not> recorded n s'"
    by (simp add: recorded_def)
  moreover have "map_of (AList.delete n evs) n = None"
    by (simp add: delete_conv')
  ultimately show ?thesis
    using after by simp
qed

theorem deactivatePlugin_purges_duplicate_free_sets_witness:
  "deactivatePlugin ''A''
       (engine_AB (authority [''A'', ''B''] allow_call allow_activate)
          [(''A'', [(''[B] ev'', UserCb 0)]), (''B'', [(''[B] ev'', UserCb 1)])]
          [(''[B] ev'', [''B'', ''A'']), (''[A] ev'', [''A''])])
     = (None, (engine_AB (authority [''A'', ''B''] allow_call allow_activate)
                 [(''B'', [(''[B] ev'', UserCb 1)])]
                 [(''[B] ev'', [''B'']), (''[A] ev'', [])])
              \<lparr>plugins := Some [(''A'', (handle profile_A)\<lparr>caps := Disabled\<rparr>),
                                (''B'', handle profile_B)],
               trace := [Deactivate ''A'']\<rparr>)
   \<and> \<not> recorded ''A''
         ((engine_AB (authority [''A'', ''B''] allow_call allow_activate)
             [(''B'', [(''[B] ev'', UserCb 1)])]
             [(''[B] ev'', [''B'']), (''[A] ev'', [])])
          \<lparr>plugins := Some [(''A'', (handle profile_A)\<lparr>caps := Disabled\<rparr>),
                            (''B'', handle profile_B)],
           trace := [Deactivate ''A'']\<rparr>)"
proof -
  let ?s = "engine_AB (authority [''A'', ''B''] allow_call allow_activate)
          [(''A'', [(''[B] ev'', UserCb 0)]), (''B'', [(''[B] ev'', UserCb 1)])]
          [(''[B] ev'', [''B'', ''A'']), (''[A] ev'', [''A''])]"
  let ?s' = "(engine_AB (authority [''A'', ''B''] allow_call allow_activate)
                 [(''B'', [(''[B] ev'', UserCb 1)])]
                 [(''[B] ev'', [''B'']), (''[A] ev'', [])])
              \<lparr>plugins := Some [(''A'', (handle profile_A)\<lparr>caps := Disabled\<rparr>),
                                (''B'', handle profile_B)],
               trace := [Deactivate ''A'']\<rparr>"
  have run: "deactivatePlugin ''A'' ?s = (None, ?s')"
    by (simp add: Let_def deactivatePlugin_def read_plugin_def isActive_def set_plugin_def
        emit_effect_def splice_out_def AList.delete_eq engine_AB_def authority_def handle_def)
  have act: "isActive (manager ?s) ''A''"
    by (simp add: isActive_def engine_AB_def authority_def)
  have dup: "duplicate_free ?s"
    by (simp add: duplicate_free_def engine_AB_def)
  from deactivatePlugin_purges_duplicate_free_sets [OF run act dup]
  have "\<not> recorded ''A'' ?s'" by blast
  with run show ?thesis by blast
qed

text \<open>
  C7 at a concrete engine: \<open>A\<close> and \<open>B\<close> are recorded, in this order, in the listener set
  of (\<open>M\<close>, \<open>ev\<close>); \<open>A\<close> has a callback stored and \<open>B\<close> has no callback table. \<open>broadcast\<close>
  calls the callback of \<open>A\<close>, then aborts at line 39 with the \<open>TypeError\<close> of reading a
  property of \<open>undefined\<close>, before the test that throws the error of line 40. When \<open>B\<close>
  has a callback table without the key, the abort is the error of line 40.
\<close>

theorem broadcast_without_callback_table:
  "broadcast browser ''M'' ''ev'' [JNumber 1]
       (engine_AB (authority [''A'', ''B''] allow_call allow_activate)
          [(''A'', [(''[M] ev'', UserCb 0)])] [(''[M] ev'', [''A'', ''B''])])
     = (Some TypeError,
        emit_effect (Invoked 0 [JNumber 1])
          (engine_AB (authority [''A'', ''B''] allow_call allow_activate)
             [(''A'', [(''[M] ev'', UserCb 0)])] [(''[M] ev'', [''A'', ''B''])]))
   \<and> broadcast browser ''M'' ''ev'' [JNumber 1]
       (engine_AB (authority [''A'', ''B''] allow_call allow_activate)
          [(''A'', [(''[M] ev'', UserCb 0)]), (''B'', [])] [(''[M] ev'', [''A'', ''B''])])
     = (Some InternalConsistency,
        emit_effect (Invoked 0 [JNumber 1])
          (engine_AB (authority [''A'', ''B''] allow_call allow_activate)
             [(''A'', [(''[M] ev'', UserCb 0)]), (''B'', [])] [(''[M] ev'', [''A'', ''B''])]))"
  by (simp add: Let_def broadcast_def browser_def key_of_def emit_effect_def engine_AB_def)

text \<open>
  C10 at a concrete engine: \<open>A\<close> has a callback table and no listener set was ever created
  for (\<open>B\<close>, \<open>ev\<close>). \<open>removeListener\<close> throws a \<open>TypeError\<close> at line 76.
\<close>

theorem removeListener_without_listener_set:
  "removeListener browser ''A'' ''B'' ''ev''
       (engine_AB (authority [''A'', ''B''] allow_call allow_activate) [(''A'', [])] [])
     = (Some TypeError,
        engine_AB (authority [''A'', ''B''] allow_call allow_activate) [(''A'', [])] [])"
  by (simp add: Let_def removeListener_def browser_def key_of_def engine_AB_def)

end
